theory Spec2Isabelle
  imports Complex_Main
begin

section \<open>WCAG contrast-comfort labeler of \<^verbatim>\<open>data/generate_dataset.py\<close>\<close>

text \<open>
  The script computes the WCAG relative luminance of an RGB triple, the contrast ratio of
  two triples and a binary comfort label, and fills a table of 5000 randomly drawn samples.

  Modelling conventions:
  \<^item> a colour channel is a Python \<^verbatim>\<open>int\<close>, here \<^typ>\<open>int\<close>; a colour is the list of
    its channels, as the script builds it;
  \<^item> a Python \<^verbatim>\<open>float\<close> is a \<^typ>\<open>real\<close>: arithmetic is exact, the rounding of
    IEEE doubles is outside the model. The conversion of a channel happens where the
    source divides by \<^verbatim>\<open>255.0\<close>;
  \<^item> \<^verbatim>\<open>x ** 2.4\<close> is \<^term>\<open>x powr 2.4\<close>. The source reaches it only with
    \<^verbatim>\<open>v > 0.03928\<close>, so the base is positive and the two agree;
  \<^item> an exception is a value of \<open>py_error\<close>, returned as \<open>Inl\<close>;
  \<^item> \<^verbatim>\<open>random.randint\<close> belongs to the Python library, not to the script: it is a
    parameter that takes a generator state and returns the drawn number with the next state.
\<close>

subsection \<open>Luminance and contrast ratio\<close>

datatype py_error = TypeError | ZeroDivisionError

text \<open>
  \<^verbatim>\<open>
  def luminance(r, g, b):
      a = [v / 255.0 for v in (r, g, b)]
      a = [v / 12.92 if v <= 0.03928 else ((v + 0.055) / 1.055) ** 2.4 for v in a]
      return 0.2126 * a[0] + 0.7152 * a[1] + 0.0722 * a[2]
  \<close>
\<close>

definition luminance :: "int \<Rightarrow> int \<Rightarrow> int \<Rightarrow> real" where
  "luminance r g b =
     (let a = map (\<lambda>v. real_of_int v / 255.0) [r, g, b];
          a = map (\<lambda>v. if v \<le> 0.03928 then v / 12.92
                        else ((v + 0.055) / 1.055) powr 2.4) a
      in 0.2126 * a ! 0 + 0.7152 * a ! 1 + 0.0722 * a ! 2)"

text \<open>
  The call \<^verbatim>\<open>luminance(*c)\<close> unpacks the list \<^verbatim>\<open>c\<close> into the three parameters;
  a list of any other length raises \<^verbatim>\<open>TypeError\<close>.
\<close>

fun luminance_unpack :: "int list \<Rightarrow> py_error + real" where
  "luminance_unpack [r, g, b] = Inr (luminance r g b)"
| "luminance_unpack _ = Inl TypeError"

text \<open>
  \<^verbatim>\<open>
  def contrast_ratio(fg, bg):
      L1 = luminance(*fg)
      L2 = luminance(*bg)
      return (max(L1, L2) + 0.05) / (min(L1, L2) + 0.05)
  \<close>
  Python's float division raises \<^verbatim>\<open>ZeroDivisionError\<close> on a zero divisor.
\<close>

definition contrast_ratio :: "int list \<Rightarrow> int list \<Rightarrow> py_error + real" where
  "contrast_ratio fg bg =
     (case luminance_unpack fg of
        Inl e \<Rightarrow> Inl e
      | Inr L1 \<Rightarrow>
          (case luminance_unpack bg of
             Inl e \<Rightarrow> Inl e
           | Inr L2 \<Rightarrow>
               if min L1 L2 + 0.05 = 0 then Inl ZeroDivisionError
               else Inr ((max L1 L2 + 0.05) / (min L1 L2 + 0.05))))"

text \<open>
  The comfort rule is the statement \<^verbatim>\<open>label = 1 if ratio >= 4.5 else 0\<close> in the body
  of the generation loop.
\<close>

definition label :: "real \<Rightarrow> int" where
  "label ratio = (if ratio \<ge> 4.5 then 1 else 0)"

subsection \<open>The generation loop\<close>

text \<open>
  A row is the dictionary literal the loop appends: its keys in the order written, the
  channels and the label as Python ints, the ratio as a float.
\<close>

datatype py_value = PyInt int | PyFloat real

type_synonym row = "(string \<times> py_value) list"

type_synonym 'g randint = "int \<Rightarrow> int \<Rightarrow> 'g \<Rightarrow> int \<times> 'g"

text \<open>
  \<^verbatim>\<open>[random.randint(0, 255) for _ in range(n)]\<close>: \<open>n\<close> draws, in order, each from the
  state the previous one left.
\<close>

fun randint_list :: "'g randint \<Rightarrow> nat \<Rightarrow> 'g \<Rightarrow> int list \<times> 'g" where
  "randint_list randint 0 s = ([], s)"
| "randint_list randint (Suc n) s =
     (let (v, s1) = randint 0 255 s;
          (vs, s2) = randint_list randint n s1
      in (v # vs, s2))"

text \<open>
  Reading \<^verbatim>\<open>c[i]\<close> raises \<^verbatim>\<open>IndexError\<close> out of range; the loop reads indices 0 to 2 of
  lists that the comprehension above built with three elements, and a shorter list has
  already made \<^verbatim>\<open>contrast_ratio\<close> raise.
\<close>

definition make_row :: "int list \<Rightarrow> int list \<Rightarrow> real \<Rightarrow> int \<Rightarrow> row" where
  "make_row fg bg ratio lab =
     [(''fg_r'', PyInt (fg ! 0)), (''fg_g'', PyInt (fg ! 1)), (''fg_b'', PyInt (fg ! 2)),
      (''bg_r'', PyInt (bg ! 0)), (''bg_g'', PyInt (bg ! 1)), (''bg_b'', PyInt (bg ! 2)),
      (''contrast_ratio'', PyFloat ratio),
      (''label'', PyInt lab)]"

text \<open>
  \<^verbatim>\<open>
  rows = []
  for _ in range(5000):
      fg = [random.randint(0, 255) for _ in range(3)]
      bg = [random.randint(0, 255) for _ in range(3)]
      ratio = contrast_ratio(fg, bg)
      label = 1 if ratio >= 4.5 else 0
      rows.append({...})
  \<close>
  \<open>generate_loop\<close> runs the body \<open>n\<close> times on the generator state and the rows
  collected so far; an exception in the body ends the script.
\<close>

fun generate_loop :: "'g randint \<Rightarrow> nat \<Rightarrow> 'g \<Rightarrow> row list \<Rightarrow> py_error + (row list \<times> 'g)" where
  "generate_loop randint 0 s rows = Inr (rows, s)"
| "generate_loop randint (Suc n) s rows =
     (let (fg, s1) = randint_list randint 3 s;
          (bg, s2) = randint_list randint 3 s1
      in case contrast_ratio fg bg of
           Inl e \<Rightarrow> Inl e
         | Inr ratio \<Rightarrow>
             generate_loop randint n s2 (rows @ [make_row fg bg ratio (label ratio)]))"

definition rows :: "'g randint \<Rightarrow> 'g \<Rightarrow> py_error + row list" where
  "rows randint s =
     (case generate_loop randint 5000 s [] of
        Inl e \<Rightarrow> Inl e
      | Inr (rs, _) \<Rightarrow> Inr rs)"

subsection \<open>The reference definition of the specification\<close>

text \<open>
  WCAG 2.1 relative luminance as the specification words it: normalise a channel by 255,
  linearise the normalised value, weight the three linearised channels.
\<close>

definition wcag_linearize :: "real \<Rightarrow> real" where
  "wcag_linearize v = (if v \<le> 0.03928 then v / 12.92 else ((v + 0.055) / 1.055) powr 2.4)"

definition wcag_luminance :: "int \<Rightarrow> int \<Rightarrow> int \<Rightarrow> real" where
  "wcag_luminance r g b =
     0.2126 * wcag_linearize (real_of_int r / 255)
   + 0.7152 * wcag_linearize (real_of_int g / 255)
   + 0.0722 * wcag_linearize (real_of_int b / 255)"

definition valid_color :: "int list \<Rightarrow> bool" where
  "valid_color c \<longleftrightarrow> length c = 3 \<and> (\<forall>v \<in> set c. 0 \<le> v \<and> v \<le> 255)"

text \<open>
  A sample row as the specification describes it: the eight columns in order, six channels
  that are integers from 0 to 255, the contrast ratio of the stored colours, between 1
  and 21, and the label, 0 or 1, that the comfort rule gives that ratio.
\<close>

definition sample_row :: "row \<Rightarrow> bool" where
  "sample_row row \<longleftrightarrow>
     (\<exists>fr fg fb br bg bb ratio lab.
        row = [(''fg_r'', PyInt fr), (''fg_g'', PyInt fg), (''fg_b'', PyInt fb),
               (''bg_r'', PyInt br), (''bg_g'', PyInt bg), (''bg_b'', PyInt bb),
               (''contrast_ratio'', PyFloat ratio), (''label'', PyInt lab)]
        \<and> (\<forall>c \<in> {fr, fg, fb, br, bg, bb}. 0 \<le> c \<and> c \<le> 255)
        \<and> contrast_ratio [fr, fg, fb] [br, bg, bb] = Inr ratio
        \<and> 1 \<le> ratio \<and> ratio \<le> 21
        \<and> lab \<in> {0, 1} \<and> lab = label ratio)"

text \<open>
  What the script relies on from \<^verbatim>\<open>random.randint(0, 255)\<close>: the number drawn lies
  between the two bounds, whatever the state of the generator.
\<close>

definition randint_in_range :: "'g randint \<Rightarrow> bool" where
  "randint_in_range randint \<longleftrightarrow>
     (\<forall>s. 0 \<le> fst (randint 0 255 s) \<and> fst (randint 0 255 s) \<le> 255)"

text \<open>A generator to run the loop on: a linear congruential one, reduced to the bounds.\<close>

definition lcg_randint :: "nat randint" where
  "lcg_randint lo hi s =
     (lo + int (s mod nat (hi - lo + 1)), (75 * s + 74) mod 65537)"

section \<open>Properties\<close>

subsection \<open>Luminance\<close>

lemma luminance_unfold:
  "luminance r g b =
     0.2126 * wcag_linearize (real_of_int r / 255)
   + 0.7152 * wcag_linearize (real_of_int g / 255)
   + 0.0722 * wcag_linearize (real_of_int b / 255)"
  by (simp add: luminance_def wcag_linearize_def Let_def)

text \<open>
  C1. For every colour, the luminance the script computes is the WCAG 2.1 reference value:
  channels divided by 255, linearised by the two-branch gamma function with threshold
  0.03928, and summed with the weights 0.2126, 0.7152 and 0.0722.
\<close>

theorem luminance_is_wcag: "luminance r g b = wcag_luminance r g b"
  unfolding wcag_luminance_def by (rule luminance_unfold)


lemma linearize_nonneg: "0 \<le> v \<Longrightarrow> 0 \<le> wcag_linearize v"
  by (simp add: wcag_linearize_def)

lemma linearize_le_one: "v \<le> 1 \<Longrightarrow> wcag_linearize v \<le> 1"
  unfolding wcag_linearize_def by (auto intro!: powr_le1)

lemma luminance_black: "luminance 0 0 0 = 0"
  by (simp add: luminance_unfold wcag_linearize_def)

lemma luminance_white: "luminance 255 255 255 = 1"
  by (simp add: luminance_unfold wcag_linearize_def)

lemma luminance_bounds:
  assumes "0 \<le> r" "r \<le> 255" "0 \<le> g" "g \<le> 255" "0 \<le> b" "b \<le> 255"
  shows "0 \<le> luminance r g b" and "luminance r g b \<le> 1"
proof -
  let ?x = "wcag_linearize (real_of_int r / 255)"
  let ?y = "wcag_linearize (real_of_int g / 255)"
  let ?z = "wcag_linearize (real_of_int b / 255)"
  have x: "0 \<le> ?x" "?x \<le> 1"
    using assms by (auto intro!: linearize_nonneg linearize_le_one)
  have y: "0 \<le> ?y" "?y \<le> 1"
    using assms by (auto intro!: linearize_nonneg linearize_le_one)
  have z: "0 \<le> ?z" "?z \<le> 1"
    using assms by (auto intro!: linearize_nonneg linearize_le_one)
  show "0 \<le> luminance r g b"
    unfolding luminance_unfold using x y z by simp
  show "luminance r g b \<le> 1"
    unfolding luminance_unfold using x y z by simp
qed

lemma valid_colorE:
  assumes "valid_color c"
  obtains r g b where "c = [r, g, b]"
    "0 \<le> r" "r \<le> 255" "0 \<le> g" "g \<le> 255" "0 \<le> b" "b \<le> 255"
proof -
  from assms have len: "length c = 3" and rng: "\<forall>v \<in> set c. 0 \<le> v \<and> v \<le> 255"
    by (simp_all add: valid_color_def)
  from len obtain r g b where c: "c = [r, g, b]"
    by (auto simp: length_Suc_conv numeral_3_eq_3)
  with rng that show thesis by simp
qed

text \<open>
  C6. The luminance of a valid colour lies between 0 and 1; black has luminance 0 and
  white has luminance 1 (exactly, hence within any tolerance).
\<close>

theorem luminance_range:
  "(valid_color [r, g, b] \<longrightarrow> 0 \<le> luminance r g b \<and> luminance r g b \<le> 1)
   \<and> luminance 0 0 0 = 0 \<and> luminance 255 255 255 = 1"
  using luminance_bounds [of r g b]
  by (simp add: valid_color_def luminance_black luminance_white)

theorem luminance_range_witness:
  "valid_color [12, 200, 7] \<and> 0 \<le> luminance 12 200 7 \<and> luminance 12 200 7 \<le> 1"
proof -
  have v: "valid_color [12, 200, 7]" by (simp add: valid_color_def)
  with luminance_range [of 12 200 7] show ?thesis by blast
qed

subsubsection \<open>Monotonicity in a channel\<close>

text \<open>
  The two branches of the gamma function do not meet at 0.03928: the power branch starts
  a little below the point where the linear branch ends. Channels are integers, and the
  threshold falls strictly between channel 10 and channel 11, where the function rises.
\<close>

lemma powr_12_5_less:
  fixes a x :: real
  assumes "0 \<le> a" "0 \<le> x" "x ^ 12 < a ^ 5"
  shows "x powr 2.4 < a"
proof -
  have "x powr 2.4 = (x powr 12) powr (1 / 5)"
    by (simp only: powr_powr) simp
  also have "\<dots> = (x ^ 12) powr (1 / 5)"
    using assms(2) by simp
  also have "\<dots> < (a ^ 5) powr (1 / 5)"
    using assms by (intro powr_less_mono2) simp_all
  also have "\<dots> = (a powr 5) powr (1 / 5)"
    using assms(1) by simp
  also have "\<dots> = a"
    using assms(1) by (simp only: powr_powr) simp
  finally show ?thesis .
qed

lemma linearize_jump: "wcag_linearize 0.039281 < wcag_linearize 0.03928"
proof -
  have "((0.039281 + 0.055) / 1.055) powr (2.4::real) < 0.03928 / 12.92"
    by (rule powr_12_5_less) (simp_all add: power_divide divide_less_eq less_divide_eq)
  then show ?thesis
    by (simp add: wcag_linearize_def)
qed

lemma threshold_int: "real_of_int i / 255 \<le> 0.03928 \<longleftrightarrow> i \<le> 10"
proof
  assume "real_of_int i / 255 \<le> 0.03928"
  then have "real_of_int i < real_of_int 11" by simp
  then show "i \<le> 10" by linarith
next
  assume "i \<le> 10"
  then have "real_of_int i \<le> 10" by simp
  then show "real_of_int i / 255 \<le> 0.03928" by simp
qed

lemma le_powr_12_5:
  fixes a x :: real
  assumes "0 \<le> a" "0 \<le> x" "a ^ 5 \<le> x ^ 12"
  shows "a \<le> x powr 2.4"
proof -
  have "a = (a powr 5) powr (1 / 5)"
    using assms(1) by (simp only: powr_powr) simp
  also have "\<dots> = (a ^ 5) powr (1 / 5)"
    using assms(1) by simp
  also have "\<dots> \<le> (x ^ 12) powr (1 / 5)"
    using assms by (intro powr_mono2) simp_all
  also have "\<dots> = (x powr 12) powr (1 / 5)"
    using assms(2) by simp
  also have "\<dots> = x powr 2.4"
    by (simp only: powr_powr) simp
  finally show ?thesis .
qed

lemma channel_10_le_11:
  "(10 / 255) / 12.92 \<le> ((11 / 255 + 0.055) / 1.055) powr (2.4::real)"
  by (rule le_powr_12_5) (simp_all add: power_divide divide_le_eq le_divide_eq)

lemma linearize_channel_mono:
  fixes j k :: int
  assumes "j \<le> k"
  shows "wcag_linearize (real_of_int j / 255) \<le> wcag_linearize (real_of_int k / 255)"
proof -
  consider (low) "k \<le> 10" | (high) "11 \<le> j" | (cross) "j \<le> 10" "11 \<le> k"
    using assms by linarith
  then show ?thesis
  proof cases
    case low
    with assms have "j \<le> 10" by simp
    with low assms show ?thesis
      by (simp add: wcag_linearize_def threshold_int divide_right_mono)
  next
    case high
    with assms have k: "11 \<le> k" by simp
    have "((real_of_int j / 255 + 0.055) / 1.055) powr 2.4
          \<le> ((real_of_int k / 255 + 0.055) / 1.055) powr 2.4"
      using assms high by (intro powr_mono2) (simp_all add: divide_right_mono)
    with high k show ?thesis
      by (simp add: wcag_linearize_def threshold_int)
  next
    case cross
    have "wcag_linearize (real_of_int j / 255) = (real_of_int j / 255) / 12.92"
      using cross(1) by (simp add: wcag_linearize_def threshold_int)
    also have "\<dots> \<le> (10 / 255) / 12.92"
      using cross(1) by simp
    also have "\<dots> \<le> ((11 / 255 + 0.055) / 1.055) powr 2.4"
      by (rule channel_10_le_11)
    also have "\<dots> \<le> ((real_of_int k / 255 + 0.055) / 1.055) powr 2.4"
      using cross(2) by (intro powr_mono2) (simp_all add: divide_right_mono)
    also have "\<dots> = wcag_linearize (real_of_int k / 255)"
      using cross(2) by (simp add: wcag_linearize_def threshold_int)
    finally show ?thesis .
  qed
qed

text \<open>
  C10. Luminance is non-decreasing in each channel: of two colours that agree on two
  channels, the one with the larger third channel has the larger or equal luminance.
  It holds for all integer channels, in particular for those of valid colours.
\<close>

theorem luminance_mono:
  "(r \<le> r' \<longrightarrow> luminance r g b \<le> luminance r' g b)
   \<and> (g \<le> g' \<longrightarrow> luminance r g b \<le> luminance r g' b)
   \<and> (b \<le> b' \<longrightarrow> luminance r g b \<le> luminance r g b')"
  using linearize_channel_mono [of r r'] linearize_channel_mono [of g g']
    linearize_channel_mono [of b b']
  by (simp add: luminance_unfold)

theorem luminance_mono_witness:
  "(10::int) \<le> 11 \<and> luminance 10 40 200 \<le> luminance 11 40 200
   \<and> (40::int) \<le> 41 \<and> luminance 10 40 200 \<le> luminance 10 41 200
   \<and> (200::int) \<le> 255 \<and> luminance 10 40 200 \<le> luminance 10 40 255"
  using luminance_mono [of 10 11 40 200 41 255] by simp


subsection \<open>Contrast ratio and label\<close>

lemma luminance_unpack_error: "luminance_unpack c = Inl e \<Longrightarrow> e = TypeError"
  by (induction c rule: luminance_unpack.induct) simp_all

lemma ratio_bounds:
  fixes L1 L2 :: real
  assumes "0 \<le> L1" "L1 \<le> 1" "0 \<le> L2" "L2 \<le> 1"
  shows "min L1 L2 + 0.05 \<noteq> 0"
    and "1 \<le> (max L1 L2 + 0.05) / (min L1 L2 + 0.05)"
    and "(max L1 L2 + 0.05) / (min L1 L2 + 0.05) \<le> 21"
proof -
  have pos: "0 < min L1 L2 + 0.05"
    using assms by simp
  then show "min L1 L2 + 0.05 \<noteq> 0"
    by simp
  have "min L1 L2 + 0.05 \<le> max L1 L2 + 0.05"
    by simp
  then show "1 \<le> (max L1 L2 + 0.05) / (min L1 L2 + 0.05)"
    using pos by (simp add: le_divide_eq)
  have "max L1 L2 + 0.05 \<le> 21 * (min L1 L2 + 0.05)"
    using assms by simp
  then show "(max L1 L2 + 0.05) / (min L1 L2 + 0.05) \<le> 21"
    using pos by (simp add: divide_le_eq)
qed

lemma contrast_ratio_valid:
  assumes "valid_color fg" "valid_color bg"
  shows "\<exists>ratio. contrast_ratio fg bg = Inr ratio \<and> 1 \<le> ratio \<and> ratio \<le> 21"
proof -
  from assms(1) obtain r g b where fg: "fg = [r, g, b]"
    and f: "0 \<le> r" "r \<le> 255" "0 \<le> g" "g \<le> 255" "0 \<le> b" "b \<le> 255"
    by (rule valid_colorE)
  from assms(2) obtain r' g' b' where bg: "bg = [r', g', b']"
    and b: "0 \<le> r'" "r' \<le> 255" "0 \<le> g'" "g' \<le> 255" "0 \<le> b'" "b' \<le> 255"
    by (rule valid_colorE)
  let ?L1 = "luminance r g b" and ?L2 = "luminance r' g' b'"
  have L: "0 \<le> ?L1" "?L1 \<le> 1" "0 \<le> ?L2" "?L2 \<le> 1"
    using f b by (simp_all add: luminance_bounds)
  have "contrast_ratio fg bg = Inr ((max ?L1 ?L2 + 0.05) / (min ?L1 ?L2 + 0.05))"
    using ratio_bounds(1) [OF L] by (simp add: contrast_ratio_def fg bg)
  with ratio_bounds(2,3) [OF L] show ?thesis
    by simp
qed

lemma contrast_ratio_same:
  assumes "valid_color fg"
  shows "contrast_ratio fg fg = Inr 1"
proof -
  from assms obtain r g b where fg: "fg = [r, g, b]"
    and f: "0 \<le> r" "r \<le> 255" "0 \<le> g" "g \<le> 255" "0 \<le> b" "b \<le> 255"
    by (rule valid_colorE)
  have "0 \<le> luminance r g b"
    using f by (rule luminance_bounds)
  then have "luminance r g b + 0.05 \<noteq> 0"
    by simp
  then show ?thesis
    by (simp add: contrast_ratio_def fg)
qed

text \<open>
  C2. The label is 1 exactly when the ratio is at least 4.5. The boundary is inclusive:
  ratio 4.5 is labelled 1, ratio 4.499999 is labelled 0.
\<close>

theorem label_threshold:
  "(label ratio = 1 \<longleftrightarrow> ratio \<ge> 4.5) \<and> label 4.5 = 1 \<and> label 4.499999 = 0"
  by (simp add: label_def)

text \<open>
  C3. For valid colours \<open>fg\<close> and \<open>bg\<close> the call \<open>contrast_ratio fg bg\<close> returns a
  ratio, and the ratio is at least 1 and at most 21.
\<close>

theorem contrast_ratio_range:
  "valid_color fg \<Longrightarrow> valid_color bg \<Longrightarrow>
   \<exists>ratio. contrast_ratio fg bg = Inr ratio \<and> 1 \<le> ratio \<and> ratio \<le> 21"
  by (rule contrast_ratio_valid)

theorem contrast_ratio_range_witness:
  "valid_color [30, 144, 255] \<and> valid_color [255, 250, 240]
   \<and> (\<exists>ratio. contrast_ratio [30, 144, 255] [255, 250, 240] = Inr ratio
        \<and> 1 \<le> ratio \<and> ratio \<le> 21)"
proof -
  have fg: "valid_color [30, 144, 255]" and bg: "valid_color [255, 250, 240]"
    by (simp_all add: valid_color_def)
  from contrast_ratio_range [OF fg bg] fg bg show ?thesis
    by blast
qed

text \<open>
  C4. The contrast ratio is symmetric: exchanging foreground and background gives the
  same result, for all lists of channels (an exception included).
\<close>

theorem contrast_ratio_symmetric: "contrast_ratio fg bg = contrast_ratio bg fg"
  by (auto simp: contrast_ratio_def min.commute max.commute split: sum.splits
           dest!: luminance_unpack_error)

text \<open>
  C7. A valid colour paired with itself has contrast ratio exactly 1, the minimum.
\<close>

theorem contrast_ratio_self: "valid_color fg \<Longrightarrow> contrast_ratio fg fg = Inr 1"
  by (rule contrast_ratio_same)

theorem contrast_ratio_self_witness:
  "valid_color [128, 0, 64] \<and> contrast_ratio [128, 0, 64] [128, 0, 64] = Inr 1"
proof -
  have fg: "valid_color [128, 0, 64]"
    by (simp add: valid_color_def)
  from contrast_ratio_self [OF fg] fg show ?thesis
    by blast
qed

text \<open>
  C8. White on black has contrast ratio exactly 21, the maximum of the range: black has
  luminance 0 and white has luminance 1.
\<close>

theorem contrast_ratio_white_black:
  "contrast_ratio [255, 255, 255] [0, 0, 0] = Inr 21
   \<and> luminance 0 0 0 = 0 \<and> luminance 255 255 255 = 1"
  by (simp add: contrast_ratio_def luminance_black luminance_white)


subsection \<open>The generated rows\<close>


lemma randint_list_valid:
  assumes "randint_in_range randint"
  shows "length (fst (randint_list randint n s)) = n
         \<and> (\<forall>v \<in> set (fst (randint_list randint n s)). 0 \<le> v \<and> v \<le> 255)"
proof (induction n arbitrary: s)
  case 0
  show ?case by simp
next
  case (Suc n)
  obtain v s1 where d: "randint 0 255 s = (v, s1)"
    by (cases "randint 0 255 s")
  with assms have v: "0 \<le> v" "v \<le> 255"
    by (auto simp: randint_in_range_def dest: spec [of _ s])
  obtain vs s2 where r: "randint_list randint n s1 = (vs, s2)"
    by (cases "randint_list randint n s1")
  with Suc.IH [of s1] have "length vs = n" "\<forall>v \<in> set vs. 0 \<le> v \<and> v \<le> 255"
    by simp_all
  with v d r show ?case
    by simp
qed

lemma randint_list_3_valid:
  assumes "randint_in_range randint"
  shows "valid_color (fst (randint_list randint 3 s))"
  using randint_list_valid [OF assms, of 3 s] by (simp add: valid_color_def)

lemma label_cases: "label ratio \<in> {0, 1}"
  by (simp add: label_def)

lemma make_row_sample:
  assumes "valid_color fg" "valid_color bg" "contrast_ratio fg bg = Inr ratio"
  shows "sample_row (make_row fg bg ratio (label ratio))"
proof -
  from assms(1) obtain r g b where fg: "fg = [r, g, b]"
    and f: "0 \<le> r" "r \<le> 255" "0 \<le> g" "g \<le> 255" "0 \<le> b" "b \<le> 255"
    by (rule valid_colorE)
  from assms(2) obtain r' g' b' where bg: "bg = [r', g', b']"
    and b: "0 \<le> r'" "r' \<le> 255" "0 \<le> g'" "g' \<le> 255" "0 \<le> b'" "b' \<le> 255"
    by (rule valid_colorE)
  from contrast_ratio_valid [OF assms(1,2)] assms(3)
  have rng: "1 \<le> ratio" "ratio \<le> 21"
    by simp_all
  have cr: "contrast_ratio [r, g, b] [r', g', b'] = Inr ratio"
    using assms(3) by (simp add: fg bg)
  show ?thesis
    unfolding sample_row_def make_row_def fg bg
    using f b rng cr label_cases [of ratio] by simp
qed

lemma generate_loop_rows:
  assumes "randint_in_range randint"
  shows "(\<forall>row \<in> set acc. sample_row row) \<Longrightarrow>
         \<exists>rs s'. generate_loop randint n s acc = Inr (rs, s')
                \<and> length rs = length acc + n \<and> (\<forall>row \<in> set rs. sample_row row)"
proof (induction n arbitrary: s acc)
  case 0
  then show ?case by simp
next
  case (Suc n)
  obtain fg s1 where d1: "randint_list randint 3 s = (fg, s1)"
    by (cases "randint_list randint 3 s")
  obtain bg s2 where d2: "randint_list randint 3 s1 = (bg, s2)"
    by (cases "randint_list randint 3 s1")
  have fg: "valid_color fg"
    using randint_list_3_valid [OF assms, of s] d1 by simp
  have bg: "valid_color bg"
    using randint_list_3_valid [OF assms, of s1] d2 by simp
  from contrast_ratio_valid [OF fg bg] obtain ratio
    where cr: "contrast_ratio fg bg = Inr ratio"
    by blast
  let ?acc = "acc @ [make_row fg bg ratio (label ratio)]"
  have "\<forall>row \<in> set ?acc. sample_row row"
    using Suc.prems make_row_sample [OF fg bg cr] by simp
  from Suc.IH [OF this, of s2] obtain rs s'
    where "generate_loop randint n s2 ?acc = Inr (rs, s')"
      and "length rs = length ?acc + n" and "\<forall>row \<in> set rs. sample_row row"
    by blast
  then show ?case
    using d1 d2 cr by simp
qed

text \<open>
  C5. With a \<^verbatim>\<open>randint\<close> that keeps to its bounds, the generation loop ends without
  an exception and leaves exactly 5000 rows. Each row has the eight columns \<open>fg_r\<close>,
  \<open>fg_g\<close>, \<open>fg_b\<close>, \<open>bg_r\<close>, \<open>bg_g\<close>, \<open>bg_b\<close>, \<open>contrast_ratio\<close>, \<open>label\<close>; its
  six channels are integers from 0 to 255, its ratio is the contrast ratio of the stored
  colours and lies between 1 and 21, and its label is 0 or 1 and is the comfort rule
  applied to that ratio.
\<close>

theorem rows_5000:
  "randint_in_range randint \<Longrightarrow>
   \<exists>rs. rows randint s = Inr rs \<and> length rs = 5000 \<and> (\<forall>row \<in> set rs. sample_row row)"
proof -
  assume "randint_in_range randint"
  from generate_loop_rows [OF this, of "[]" 5000 s] obtain rs s'
    where "generate_loop randint 5000 s [] = Inr (rs, s')"
      and "length rs = 5000" and "\<forall>row \<in> set rs. sample_row row"
    by auto
  then show ?thesis
    by (simp add: rows_def)
qed

theorem rows_5000_witness:
  "randint_in_range lcg_randint
   \<and> (\<exists>rs. rows lcg_randint 2024 = Inr rs \<and> length rs = 5000)"
proof -
  have "s mod 256 \<le> 255" for s :: nat
    using mod_less_divisor [of 256 s] by linarith
  then have h: "randint_in_range lcg_randint"
    unfolding randint_in_range_def lcg_randint_def by simp
  from rows_5000 [OF h, of 2024] h show ?thesis
    by blast
qed


end
